theory Spec2Isabelle
  imports Complex_Main
begin

section \<open>Configuration utilities of synthetic-data-kit\<close>

text \<open>
  A shallow embedding of \<^verbatim>\<open>synthetic_data_kit/utils/config.py\<close>: the loader
  \<^verbatim>\<open>load_config\<close>, the accessors \<^verbatim>\<open>get_path_config\<close>, \<^verbatim>\<open>get_llm_provider\<close>,
  \<^verbatim>\<open>get_prompt\<close>, the five section getters, and the recursive \<^verbatim>\<open>merge_configs\<close>.
\<close>

subsection \<open>Documents\<close>

text \<open>
  What \<^verbatim>\<open>yaml.safe_load\<close> hands to the module: scalars, sequences and mappings with
  string keys. A Python dict keeps its keys unique and in insertion order, so a mapping
  is an association list. A float is carried as the rational its literal denotes; the
  module only stores, compares and returns floats and never computes with them.
\<close>

datatype pyval =
    VNone
  | VBool bool
  | VInt int
  | VFloat rat
  | VStr string
  | VList "pyval list"
  | VDict "(string \<times> pyval) list"

type_synonym dict = "(string \<times> pyval) list"

text \<open>The exceptions the module raises itself or lets escape from a dynamic operation.\<close>

datatype error =
    FileNotFoundError string
  | ValueError string
  | AttributeError
  | TypeError
  | KeyError string
  | OSError
  | UnicodeDecodeError
  | YAMLError
  | RecursionError

text \<open>The lines the module prints, with the formatted value kept as a value.\<close>

datatype message =
    LoadingConfigFrom string
  | ConfigHasProvider pyval
  | ConfigNoProvider
  | ProviderReturning pyval
  | ProviderWarning pyval

subsection \<open>The dynamic operations of Python the module relies on\<close>

definition res_bind :: "error + 'a \<Rightarrow> ('a \<Rightarrow> error + 'b) \<Rightarrow> error + 'b" where
  "res_bind r f = (case r of Inl e \<Rightarrow> Inl e | Inr x \<Rightarrow> f x)"

text \<open>\<^verbatim>\<open>d[k] = v\<close> on a dict: an existing key keeps its place, a new key goes last.\<close>

fun dict_setitem :: "('k \<times> 'v) list \<Rightarrow> 'k \<Rightarrow> 'v \<Rightarrow> ('k \<times> 'v) list" where
  "dict_setitem [] k v = [(k, v)]"
| "dict_setitem ((k', v') # d) k v =
     (if k' = k then (k, v) # d else (k', v') # dict_setitem d k v)"

text \<open>\<^verbatim>\<open>d.get(k, default)\<close> on a dict.\<close>

definition dict_get :: "dict \<Rightarrow> string \<Rightarrow> pyval \<Rightarrow> pyval" where
  "dict_get d k dflt = (case map_of d k of Some v \<Rightarrow> v | None \<Rightarrow> dflt)"

text \<open>
  \<^verbatim>\<open>x.get(k, default)\<close> on an arbitrary value: only a dict has the method, every
  other value of a document raises AttributeError.
\<close>

fun py_get :: "pyval \<Rightarrow> string \<Rightarrow> pyval \<Rightarrow> error + pyval" where
  "py_get (VDict d) k dflt = Inr (dict_get d k dflt)"
| "py_get _ k dflt = Inl AttributeError"

text \<open>Python's \<^verbatim>\<open>s in t\<close> on two strings: \<open>s\<close> occurs in \<open>t\<close> as a contiguous run.\<close>

fun is_substring :: "string \<Rightarrow> string \<Rightarrow> bool" where
  "is_substring xs [] = (xs = [])"
| "is_substring xs (y # ys) = (take (length xs) (y # ys) = xs \<or> is_substring xs ys)"

text \<open>
  \<^verbatim>\<open>k in x\<close> for a string \<open>k\<close>: key membership on a dict, substring test on a string,
  element membership on a list, TypeError on None and on numbers.
\<close>

fun py_in :: "string \<Rightarrow> pyval \<Rightarrow> error + bool" where
  "py_in k (VDict d) = Inr (k \<in> fst ` set d)"
| "py_in k (VStr s) = Inr (is_substring k s)"
| "py_in k (VList xs) = Inr (VStr k \<in> set xs)"
| "py_in k _ = Inl TypeError"

text \<open>
  \<^verbatim>\<open>x[k]\<close> for a string \<open>k\<close>: the stored value or KeyError on a dict; a string or a
  list cannot be indexed by a string and the other values cannot be indexed at all.
\<close>

fun py_getitem :: "pyval \<Rightarrow> string \<Rightarrow> error + pyval" where
  "py_getitem (VDict d) k = (case map_of d k of Some v \<Rightarrow> Inr v | None \<Rightarrow> Inl (KeyError k))"
| "py_getitem _ k = Inl TypeError"

text \<open>Truth value of an optional string argument: None and the empty string are false.\<close>

fun truthy :: "string option \<Rightarrow> bool" where
  "truthy None = False"
| "truthy (Some s) = (s \<noteq> [])"

subsection \<open>load\_config\<close>

text \<open>
  The two module-level paths are computed from the location of the source file, and the
  file system is outside the module: both are parameters. \<open>path_exists\<close> is
  \<^verbatim>\<open>os.path.exists\<close>; \<open>read_yaml\<close> is opening the file and running
  \<^verbatim>\<open>yaml.safe_load\<close> on it, which yields a document or fails. A path that
  exists can fail to open (a directory, no permission: an OSError), its bytes can fail to
  decode as text (UnicodeDecodeError, a subclass of ValueError), and the text can fail to
  parse (a YAMLError). The loader catches none of them.
\<close>

datatype read_failure = CannotOpen | CannotDecode | Malformed

record env =
  PACKAGE_CONFIG_PATH :: string
  ORIGINAL_CONFIG_PATH :: string
  path_exists :: "string \<Rightarrow> bool"
  read_yaml :: "string \<Rightarrow> read_failure + pyval"

definition DEFAULT_CONFIG_PATH :: "env \<Rightarrow> string" where
  "DEFAULT_CONFIG_PATH E = PACKAGE_CONFIG_PATH E"

text \<open>The \<^verbatim>\<open>for ... break\<close> over the candidate paths: the first one that exists.\<close>

fun first_existing :: "(string \<Rightarrow> bool) \<Rightarrow> string list \<Rightarrow> string option" where
  "first_existing ex [] = None"
| "first_existing ex (p # ps) = (if ex p then Some p else first_existing ex ps)"

text \<open>Lines 28 to 36: the path the loader settles on.\<close>

definition resolve_path :: "env \<Rightarrow> string option \<Rightarrow> string" where
  "resolve_path E config_path =
     (case config_path of
        Some p \<Rightarrow> p
      | None \<Rightarrow>
          (case first_existing (path_exists E) [PACKAGE_CONFIG_PATH E, ORIGINAL_CONFIG_PATH E] of
             Some p \<Rightarrow> p
           | None \<Rightarrow> DEFAULT_CONFIG_PATH E))"

definition not_found_message :: "string \<Rightarrow> string" where
  "not_found_message p = ''Configuration file not found at '' @ p"

text \<open>
  Lines 46 to 49, the debug print: the test
  \<^verbatim>\<open>'llm' in config and 'provider' in config['llm']\<close> and then the lookup
  \<^verbatim>\<open>config['llm']['provider']\<close> of the f-string, each on whatever was parsed.
\<close>

definition debug_provider :: "pyval \<Rightarrow> error + message" where
  "debug_provider config =
     res_bind (py_in ''llm'' config) (\<lambda>has_llm.
     res_bind (if has_llm
               then res_bind (py_getitem config ''llm'') (\<lambda>llm. py_in ''provider'' llm)
               else Inr False) (\<lambda>has_provider.
       if has_provider
       then res_bind (py_getitem config ''llm'') (\<lambda>llm.
            res_bind (py_getitem llm ''provider'') (\<lambda>p. Inr (ConfigHasProvider p)))
       else Inr ConfigNoProvider))"

definition load_config :: "env \<Rightarrow> string option \<Rightarrow> message list \<times> (error + pyval)" where
  "load_config E config_path =
     (let p = resolve_path E config_path in
      if \<not> path_exists E p then ([], Inl (FileNotFoundError (not_found_message p)))
      else
        (case read_yaml E p of
           Inl CannotOpen \<Rightarrow> ([LoadingConfigFrom p], Inl OSError)
         | Inl CannotDecode \<Rightarrow> ([LoadingConfigFrom p], Inl UnicodeDecodeError)
         | Inl Malformed \<Rightarrow> ([LoadingConfigFrom p], Inl YAMLError)
         | Inr config \<Rightarrow>
             (case debug_provider config of
                Inl e \<Rightarrow> ([LoadingConfigFrom p], Inl e)
              | Inr m \<Rightarrow> ([LoadingConfigFrom p, m], Inr config))))"

subsection \<open>get\_path\_config\<close>

definition unknown_path_type :: "string \<Rightarrow> string" where
  "unknown_path_type path_type = ''Unknown path type: '' @ path_type"

definition get_path_config :: "dict \<Rightarrow> string \<Rightarrow> string option \<Rightarrow> error + pyval" where
  "get_path_config config path_type file_type =
     (let paths = dict_get config ''paths'' (VDict []) in
      if path_type = ''input'' then
        res_bind (py_get paths ''input'' (VStr ''data/input'')) (\<lambda>input_config.
          case input_config of
            VStr s \<Rightarrow> Inr input_config
          | VDict d \<Rightarrow>
              res_bind (if truthy file_type then py_in (the file_type) input_config
                        else Inr False) (\<lambda>found.
                if found then py_getitem input_config (the file_type)
                else py_get input_config ''default'' (VStr ''data/input''))
          | _ \<Rightarrow> Inr (VStr ''data/input''))
      else if path_type = ''output'' then
        res_bind (py_get paths ''output'' (VDict [])) (\<lambda>output_paths.
          res_bind (if truthy file_type then py_in (the file_type) output_paths
                    else Inr False) (\<lambda>found.
            if found then py_getitem output_paths (the file_type)
            else py_get output_paths ''default'' (VStr ''data/output'')))
      else Inl (ValueError (unknown_path_type path_type)))"

subsection \<open>get\_llm\_provider\<close>

text \<open>
  Line 87, the condition of the warning, with Python's left-to-right \<^verbatim>\<open>and\<close>:
  \<^verbatim>\<open>provider != 'api-endpoint' and 'llm' in config and 'provider' in config['llm']
  and config['llm']['provider'] == 'api-endpoint'\<close>.
\<close>

definition warning_condition :: "dict \<Rightarrow> pyval \<Rightarrow> error + bool" where
  "warning_condition config provider =
     (if provider \<noteq> VStr ''api-endpoint'' then
        res_bind (py_in ''llm'' (VDict config)) (\<lambda>has_llm.
          if has_llm then
            res_bind (py_getitem (VDict config) ''llm'') (\<lambda>llm.
            res_bind (py_in ''provider'' llm) (\<lambda>has_provider.
              if has_provider then
                res_bind (py_getitem (VDict config) ''llm'') (\<lambda>llm'.
                res_bind (py_getitem llm' ''provider'') (\<lambda>p.
                  Inr (p = VStr ''api-endpoint'')))
              else Inr False))
          else Inr False)
      else Inr False)"

text \<open>Lines 84 and 85: the value that is printed, tested and returned.\<close>

definition read_provider :: "dict \<Rightarrow> error + pyval" where
  "read_provider config =
     (let llm_config = dict_get config ''llm'' (VDict []) in
      py_get llm_config ''provider'' (VStr ''vllm''))"

definition get_llm_provider :: "dict \<Rightarrow> message list \<times> (error + pyval)" where
  "get_llm_provider config =
     (case read_provider config of
        Inl e \<Rightarrow> ([], Inl e)
      | Inr provider \<Rightarrow>
          (case warning_condition config provider of
             Inl e \<Rightarrow> ([ProviderReturning provider], Inl e)
           | Inr warn \<Rightarrow>
               ([ProviderReturning provider] @ (if warn then [ProviderWarning provider] else []),
                Inr provider)))"

subsection \<open>The section getters\<close>

definition vllm_default :: pyval where
  "vllm_default = VDict
     [(''api_base'', VStr ''http://localhost:8000/v1''),
      (''port'', VInt 8000),
      (''model'', VStr ''meta-llama/Llama-3.3-70B-Instruct''),
      (''max_retries'', VInt 3),
      (''retry_delay'', VFloat 1.0)]"

definition get_vllm_config :: "dict \<Rightarrow> pyval" where
  "get_vllm_config config = dict_get config ''vllm'' vllm_default"

definition openai_default :: pyval where
  "openai_default = VDict
     [(''api_base'', VNone),
      (''api_key'', VNone),
      (''model'', VStr ''gpt-4o''),
      (''max_retries'', VInt 3),
      (''retry_delay'', VFloat 1.0)]"

definition get_openai_config :: "dict \<Rightarrow> pyval" where
  "get_openai_config config = dict_get config ''api-endpoint'' openai_default"

definition generation_default :: pyval where
  "generation_default = VDict
     [(''temperature'', VFloat 0.7),
      (''top_p'', VFloat 0.95),
      (''chunk_size'', VInt 4000),
      (''overlap'', VInt 200),
      (''max_tokens'', VInt 4096)]"

definition get_generation_config :: "dict \<Rightarrow> pyval" where
  "get_generation_config config = dict_get config ''generation'' generation_default"

definition curate_default :: pyval where
  "curate_default = VDict
     [(''threshold'', VFloat 7.0),
      (''batch_size'', VInt 8),
      (''temperature'', VFloat 0.1)]"

definition get_curate_config :: "dict \<Rightarrow> pyval" where
  "get_curate_config config = dict_get config ''curate'' curate_default"

definition format_default :: pyval where
  "format_default = VDict
     [(''default'', VStr ''jsonl''),
      (''include_metadata'', VBool True),
      (''pretty_json'', VBool True)]"

definition get_format_config :: "dict \<Rightarrow> pyval" where
  "get_format_config config = dict_get config ''format'' format_default"

subsection \<open>get\_prompt\<close>

definition prompt_not_found :: "string \<Rightarrow> string" where
  "prompt_not_found prompt_name =
     ''Prompt '' @ [CHR 0x27] @ prompt_name @ [CHR 0x27] @ '' not found in configuration''"

definition get_prompt :: "dict \<Rightarrow> string \<Rightarrow> error + pyval" where
  "get_prompt config prompt_name =
     (let prompts = dict_get config ''prompts'' (VDict []) in
      res_bind (py_in prompt_name prompts) (\<lambda>found.
        if \<not> found then Inl (ValueError (prompt_not_found prompt_name))
        else py_getitem prompts prompt_name))"

subsection \<open>merge\_configs on values\<close>

text \<open>
  The first argument is the loop variable \<^verbatim>\<open>result\<close>, which starts as the copy of
  \<^verbatim>\<open>base_config\<close>; the second is what is left of \<^verbatim>\<open>override_config.items()\<close>.
  On values a copy is the value itself, so the call \<open>merge_configs base override\<close>
  is the source's call. The recursion descends into the override, a finite tree.
\<close>

function merge_configs :: "dict \<Rightarrow> dict \<Rightarrow> dict" where
  "merge_configs result [] = result"
| "merge_configs result ((key, value) # items) =
     merge_configs
       (dict_setitem result key
          (case value of
             VDict ov \<Rightarrow>
               (case map_of result key of
                  Some (VDict bv) \<Rightarrow> VDict (merge_configs bv ov)
                | _ \<Rightarrow> value)
           | _ \<Rightarrow> value))
       items"
  by pat_completeness auto
termination
  by (relation "measure (\<lambda>(result, items). size (VDict items))") auto

text \<open>
  The value the claim gives to a key of the override: with \<open>b\<close> the base's entry at
  that key (if any) and \<open>v\<close> the override's, the recursive merge when both are
  mappings and \<open>v\<close> otherwise.
\<close>

definition spec_merged_value :: "pyval option \<Rightarrow> pyval \<Rightarrow> pyval" where
  "spec_merged_value b v =
     (case v of
        VDict ov \<Rightarrow> (case b of Some (VDict bv) \<Rightarrow> VDict (merge_configs bv ov) | _ \<Rightarrow> v)
      | _ \<Rightarrow> v)"

subsection \<open>merge\_configs on a store\<close>

text \<open>
  Python dicts and lists are objects held by reference, and \<^verbatim>\<open>merge_configs\<close>
  assigns into one: whether the caller's documents survive the call is a question about
  the store. An object lives at an address (its index in the store), a value is a scalar
  or a reference, and allocation appends to the store.
\<close>

type_synonym addr = nat

datatype hval = HNone | HBool bool | HInt int | HFloat rat | HStr string | HRef addr

datatype obj = ODict "(string \<times> hval) list" | OList "hval list"

type_synonym heap = "obj list"

text \<open>The entries of the dict at an address, if a dict lives there.\<close>

definition heap_dict :: "heap \<Rightarrow> addr \<Rightarrow> (string \<times> hval) list option" where
  "heap_dict h a =
     (if a < length h then (case h ! a of ODict d \<Rightarrow> Some d | OList xs \<Rightarrow> None) else None)"

text \<open>\<^verbatim>\<open>isinstance(v, dict)\<close>, answering with the address and the entries.\<close>

fun as_dict :: "heap \<Rightarrow> hval \<Rightarrow> (addr \<times> (string \<times> hval) list) option" where
  "as_dict h (HRef a) = (case heap_dict h a of Some d \<Rightarrow> Some (a, d) | None \<Rightarrow> None)"
| "as_dict h _ = None"

text \<open>\<^verbatim>\<open>obj[k] = v\<close> in place, on the dict at address \<open>a\<close>.\<close>

definition heap_setitem :: "heap \<Rightarrow> addr \<Rightarrow> string \<Rightarrow> hval \<Rightarrow> error + heap" where
  "heap_setitem h a k v =
     (case heap_dict h a of
        Some d \<Rightarrow> Inr (h[a := ODict (dict_setitem d k v)])
      | None \<Rightarrow> Inl TypeError)"

text \<open>
  Line 148, \<^verbatim>\<open>isinstance(value, dict) and key in result and isinstance(result[key], dict)\<close>:
  when it holds, the addresses of \<^verbatim>\<open>result[key]\<close> and of \<^verbatim>\<open>value\<close>.
\<close>

definition merge_test :: "heap \<Rightarrow> addr \<Rightarrow> string \<Rightarrow> hval \<Rightarrow> (addr \<times> addr) option" where
  "merge_test h result key value =
     (case as_dict h value of
        None \<Rightarrow> None
      | Some (va, vd) \<Rightarrow>
          (case heap_dict h result of
             None \<Rightarrow> None
           | Some rd \<Rightarrow>
               (case map_of rd key of
                  None \<Rightarrow> None
                | Some rv \<Rightarrow>
                    (case as_dict h rv of
                       None \<Rightarrow> None
                     | Some (ra, rvd) \<Rightarrow> Some (ra, va)))))"

text \<open>
  \<open>merge_configs_h\<close> is the function, \<open>merge_loop_h\<close> its \<^verbatim>\<open>for\<close> loop.
  \<^verbatim>\<open>base_config.copy()\<close> allocates a new dict with the entries of the base (a shallow
  copy: the entries are the same references). The loop runs over the items the override
  holds when the loop starts. The first argument bounds the depth of the recursion, as the
  interpreter's recursion limit does: a store may hold a mapping that contains itself.
  Both arguments are annotated as dicts; the model rejects a call on anything else.
\<close>

fun merge_configs_h :: "nat \<Rightarrow> heap \<Rightarrow> addr \<Rightarrow> addr \<Rightarrow> error + (heap \<times> addr)"
and merge_loop_h :: "nat \<Rightarrow> heap \<Rightarrow> addr \<Rightarrow> (string \<times> hval) list \<Rightarrow> error + heap"
where
  "merge_configs_h 0 h base_config override_config = Inl RecursionError"
| "merge_configs_h (Suc n) h base_config override_config =
     (case heap_dict h base_config of
        None \<Rightarrow> Inl TypeError
      | Some bd \<Rightarrow>
          (case heap_dict h override_config of
             None \<Rightarrow> Inl TypeError
           | Some od \<Rightarrow>
               (case merge_loop_h n (h @ [ODict bd]) (length h) od of
                  Inl e \<Rightarrow> Inl e
                | Inr h' \<Rightarrow> Inr (h', length h))))"
| "merge_loop_h n h result [] = Inr h"
| "merge_loop_h n h result ((key, value) # items) =
     (case merge_test h result key value of
        Some (ra, va) \<Rightarrow>
          (case merge_configs_h n h ra va of
             Inl e \<Rightarrow> Inl e
           | Inr (h', m) \<Rightarrow>
               (case heap_setitem h' result key (HRef m) of
                  Inl e \<Rightarrow> Inl e
                | Inr h'' \<Rightarrow> merge_loop_h n h'' result items))
      | None \<Rightarrow>
          (case heap_setitem h result key value of
             Inl e \<Rightarrow> Inl e
           | Inr h'' \<Rightarrow> merge_loop_h n h'' result items))"

text \<open>
  Reading a value of the store back as a document: following references, never through
  an address in \<open>S\<close>, and at most \<open>n\<close> mappings or sequences deep. A value
  that reads back is a finite tree.
\<close>

fun read_val :: "addr set \<Rightarrow> nat \<Rightarrow> heap \<Rightarrow> hval \<Rightarrow> pyval option"
and read_items :: "addr set \<Rightarrow> nat \<Rightarrow> heap \<Rightarrow> (string \<times> hval) list \<Rightarrow> dict option"
and read_list :: "addr set \<Rightarrow> nat \<Rightarrow> heap \<Rightarrow> hval list \<Rightarrow> pyval list option"
where
  "read_val S n h HNone = Some VNone"
| "read_val S n h (HBool b) = Some (VBool b)"
| "read_val S n h (HInt i) = Some (VInt i)"
| "read_val S n h (HFloat f) = Some (VFloat f)"
| "read_val S n h (HStr s) = Some (VStr s)"
| "read_val S 0 h (HRef a) = None"
| "read_val S (Suc n) h (HRef a) =
     (if a \<in> S \<or> length h \<le> a then None
      else (case h ! a of
              ODict d \<Rightarrow> map_option VDict (read_items S n h d)
            | OList xs \<Rightarrow> map_option VList (read_list S n h xs)))"
| "read_items S n h [] = Some []"
| "read_items S n h ((k, v) # d) =
     (case read_val S n h v of
        None \<Rightarrow> None
      | Some x \<Rightarrow> map_option ((#) (k, x)) (read_items S n h d))"
| "read_list S n h [] = Some []"
| "read_list S n h (v # vs) =
     (case read_val S n h v of
        None \<Rightarrow> None
      | Some x \<Rightarrow> map_option ((#) x) (read_list S n h vs))"

subsection \<open>The vocabulary of the specification\<close>

text \<open>
  The lookup the specification describes for a mapping of paths, in its own words: the
  entry keyed by \<open>file_type\<close> when \<open>file_type\<close> is given and present, else
  the entry keyed \<open>default\<close> when present, else the literal fallback.
\<close>

definition spec_mapping_path :: "dict \<Rightarrow> string option \<Rightarrow> string \<Rightarrow> pyval" where
  "spec_mapping_path d file_type fallback =
     (case (case file_type of None \<Rightarrow> None | Some f \<Rightarrow> map_of d f) of
        Some v \<Rightarrow> v
      | None \<Rightarrow> (case map_of d ''default'' of Some v \<Rightarrow> v | None \<Rightarrow> VStr fallback))"

text \<open>A file type that is given and is not the empty string.\<close>

definition given_nonempty :: "string option \<Rightarrow> string option" where
  "given_nonempty file_type = (if file_type = Some [] then None else file_type)"

text \<open>The entry \<open>prompts.<name>\<close> of a document, when there is one.\<close>

definition spec_prompt_entry :: "dict \<Rightarrow> string \<Rightarrow> pyval option" where
  "spec_prompt_entry config prompt_name =
     (case map_of config ''prompts'' of
        Some (VDict prompts) \<Rightarrow> map_of prompts prompt_name
      | _ \<Rightarrow> None)"

text \<open>
  A file system for the examples: the listed paths exist and every file parses to the
  given document.
\<close>

definition file_env :: "string list \<Rightarrow> pyval \<Rightarrow> env" where
  "file_env present doc =
     \<lparr>PACKAGE_CONFIG_PATH = ''pkg/synthetic_data_kit/config.yaml'',
      ORIGINAL_CONFIG_PATH = ''pkg/configs/config.yaml'',
      path_exists = (\<lambda>p. p \<in> set present),
      read_yaml = (\<lambda>p. Inr doc)\<rparr>"

section \<open>Properties\<close>

subsection \<open>Dictionary assignment\<close>

lemma map_of_dict_setitem: "map_of (dict_setitem d k v) = (map_of d)(k \<mapsto> v)"
  by (induction d k v rule: dict_setitem.induct) auto

lemma keys_dict_setitem: "fst ` set (dict_setitem d k v) = insert k (fst ` set d)"
  by (induction d k v rule: dict_setitem.induct) auto

lemma distinct_dict_setitem:
  "distinct (map fst d) \<Longrightarrow> distinct (map fst (dict_setitem d k v))"
  by (induction d k v rule: dict_setitem.induct) (auto simp: keys_dict_setitem)

subsection \<open>merge\_configs applies the override key by key\<close>

lemma merge_configs_Cons:
  "merge_configs result ((key, value) # items) =
     merge_configs (dict_setitem result key (spec_merged_value (map_of result key) value)) items"
  by (simp add: spec_merged_value_def)

lemma merge_configs_lookup:
  "distinct (map fst override) \<Longrightarrow>
   map_of (merge_configs base override) k =
     (case map_of override k of
        None \<Rightarrow> map_of base k
      | Some v \<Rightarrow> Some (spec_merged_value (map_of base k) v))"
proof (induction override arbitrary: base)
  case Nil
  show ?case by simp
next
  case (Cons kv items)
  obtain key val where kv: "kv = (key, val)" by (cases kv)
  from Cons.prems kv have d: "distinct (map fst items)" and nk: "key \<notin> fst ` set items"
    by auto
  from nk have none: "map_of items key = None"
    by (simp add: map_of_eq_None_iff)
  show ?case
    unfolding kv merge_configs_Cons
    using Cons.IH[OF d] none
    by (auto simp: map_of_dict_setitem split: option.splits)
qed

lemma keys_merge_configs:
  "fst ` set (merge_configs base override) = fst ` set base \<union> fst ` set override"
proof (induction override arbitrary: base)
  case Nil
  show ?case by simp
next
  case (Cons kv items)
  obtain key val where kv: "kv = (key, val)" by (cases kv)
  show ?case
    unfolding kv merge_configs_Cons by (simp add: Cons.IH keys_dict_setitem)
qed

text \<open>The result is again a dict: its keys stay unique.\<close>

lemma distinct_merge_configs:
  "distinct (map fst base) \<Longrightarrow> distinct (map fst (merge_configs base override))"
proof (induction override arbitrary: base)
  case Nil
  then show ?case by simp
next
  case (Cons kv items)
  obtain key val where kv: "kv = (key, val)" by (cases kv)
  show ?case
    unfolding kv merge_configs_Cons
    by (rule Cons.IH) (rule distinct_dict_setitem[OF Cons.prems])
qed

lemma merge_configs_example:
  "merge_configs [(''a'', VDict [(''x'', VInt 1), (''y'', VInt 2)])]
                 [(''a'', VDict [(''y'', VInt 9), (''z'', VInt 3)])]
   = [(''a'', VDict [(''x'', VInt 1), (''y'', VInt 9), (''z'', VInt 3)])]"
  by simp

text \<open>
  Claim C1. For every base and every override (a dict, so with unique keys), the merge
  holds at each key \<open>k\<close> of the override the recursive merge of the two entries when
  both are mappings and the override's entry otherwise; at every other key it holds what
  the base holds; its keys are those of the base together with those of the override.
  In particular merging \<open>{a: {x: 1, y: 2}}\<close> with \<open>{a: {y: 9, z: 3}}\<close> gives
  \<open>{a: {x: 1, y: 9, z: 3}}\<close>.
\<close>

theorem merge_configs_applies_override:
  "(distinct (map fst override) \<longrightarrow>
      (\<forall>k. map_of (merge_configs base override) k =
           (case map_of override k of
              None \<Rightarrow> map_of base k
            | Some v \<Rightarrow>
                Some (case v of
                        VDict ov \<Rightarrow>
                          (case map_of base k of
                             Some (VDict bv) \<Rightarrow> VDict (merge_configs bv ov)
                           | _ \<Rightarrow> v)
                      | _ \<Rightarrow> v))))
   \<and> fst ` set (merge_configs base override) = fst ` set base \<union> fst ` set override
   \<and> merge_configs [(''a'', VDict [(''x'', VInt 1), (''y'', VInt 2)])]
                    [(''a'', VDict [(''y'', VInt 9), (''z'', VInt 3)])]
       = [(''a'', VDict [(''x'', VInt 1), (''y'', VInt 9), (''z'', VInt 3)])]"
proof (intro conjI impI allI)
  fix k
  assume "distinct (map fst override)"
  from merge_configs_lookup[OF this, of base k]
  show "map_of (merge_configs base override) k =
           (case map_of override k of
              None \<Rightarrow> map_of base k
            | Some v \<Rightarrow>
                Some (case v of
                        VDict ov \<Rightarrow>
                          (case map_of base k of
                             Some (VDict bv) \<Rightarrow> VDict (merge_configs bv ov)
                           | _ \<Rightarrow> v)
                      | _ \<Rightarrow> v))"
    by (simp add: spec_merged_value_def split: option.splits)
next
  show "fst ` set (merge_configs base override) = fst ` set base \<union> fst ` set override"
    by (rule keys_merge_configs)
next
  show "merge_configs [(''a'', VDict [(''x'', VInt 1), (''y'', VInt 2)])]
                    [(''a'', VDict [(''y'', VInt 9), (''z'', VInt 3)])]
       = [(''a'', VDict [(''x'', VInt 1), (''y'', VInt 9), (''z'', VInt 3)])]"
    by (rule merge_configs_example)
qed

theorem merge_configs_applies_override_witness:
  "distinct (map fst [(''a'', VDict [(''y'', VInt 9)]), (''b'', VInt 7)])
   \<and> map_of (merge_configs [(''a'', VDict [(''x'', VInt 1), (''y'', VInt 2)]), (''c'', VNone)]
                            [(''a'', VDict [(''y'', VInt 9)]), (''b'', VInt 7)]) ''a''
       = Some (VDict [(''x'', VInt 1), (''y'', VInt 9)])
   \<and> map_of (merge_configs [(''a'', VDict [(''x'', VInt 1), (''y'', VInt 2)]), (''c'', VNone)]
                            [(''a'', VDict [(''y'', VInt 9)]), (''b'', VInt 7)]) ''c''
       = Some VNone"
proof -
  have d: "distinct (map fst [(''a'', VDict [(''y'', VInt 9)]), (''b'', VInt 7)])"
    by simp
  have "\<forall>k. map_of (merge_configs [(''a'', VDict [(''x'', VInt 1), (''y'', VInt 2)]), (''c'', VNone)]
                            [(''a'', VDict [(''y'', VInt 9)]), (''b'', VInt 7)]) k =
           (case map_of [(''a'', VDict [(''y'', VInt 9)]), (''b'', VInt 7)] k of
              None \<Rightarrow> map_of [(''a'', VDict [(''x'', VInt 1), (''y'', VInt 2)]), (''c'', VNone)] k
            | Some v \<Rightarrow>
                Some (case v of
                        VDict ov \<Rightarrow>
                          (case map_of [(''a'', VDict [(''x'', VInt 1), (''y'', VInt 2)]), (''c'', VNone)] k of
                             Some (VDict bv) \<Rightarrow> VDict (merge_configs bv ov)
                           | _ \<Rightarrow> v)
                      | _ \<Rightarrow> v))"
    using merge_configs_applies_override
      [of "[(''a'', VDict [(''y'', VInt 9)]), (''b'', VInt 7)]"
          "[(''a'', VDict [(''x'', VInt 1), (''y'', VInt 2)]), (''c'', VNone)]"] d
    by blast
  then show ?thesis using d by simp
qed

subsection \<open>merge\_configs on the store: what it writes and what it computes\<close>

lemma read_transfer:
  "(\<forall>a. a \<notin> S \<and> a < length h \<longrightarrow> a \<notin> S' \<and> a < length h' \<and> h' ! a = h ! a) \<Longrightarrow>
     read_val S n h v = Some x \<Longrightarrow> read_val S' (n + m) h' v = Some x"
  "(\<forall>a. a \<notin> S \<and> a < length h \<longrightarrow> a \<notin> S' \<and> a < length h' \<and> h' ! a = h ! a) \<Longrightarrow>
     read_items S n h d = Some r \<Longrightarrow> read_items S' (n + m) h' d = Some r"
  "(\<forall>a. a \<notin> S \<and> a < length h \<longrightarrow> a \<notin> S' \<and> a < length h' \<and> h' ! a = h ! a) \<Longrightarrow>
     read_list S n h vs = Some xs \<Longrightarrow> read_list S' (n + m) h' vs = Some xs"
proof (induction S n h v and S n h d and S n h vs arbitrary: x and r and xs
       rule: read_val_read_items_read_list.induct)
  case (7 S n h a)
  from "7.prems"(2) have ok: "a \<notin> S" "a < length h"
    by (auto split: if_splits)
  with "7.prems"(1) have ok': "a \<notin> S'" "a < length h'" "h' ! a = h ! a"
    by auto
  show ?case
  proof (cases "h ! a")
    case (ODict d)
    with "7.prems"(2) ok obtain r where r: "read_items S n h d = Some r" "x = VDict r"
      by auto
    from "7.IH"(1)[OF _ ODict "7.prems"(1) r(1)] ok
    have "read_items S' (n + m) h' d = Some r" by simp
    with ok' ODict r show ?thesis by simp
  next
    case (OList vs)
    with "7.prems"(2) ok obtain r where r: "read_list S n h vs = Some r" "x = VList r"
      by auto
    from "7.IH"(2)[OF _ OList "7.prems"(1) r(1)] ok
    have "read_list S' (n + m) h' vs = Some r" by simp
    with ok' OList r show ?thesis by simp
  qed
next
  case (9 S n h k v d)
  from "9.prems"(2) obtain x r' where x: "read_val S n h v = Some x"
    and r': "read_items S n h d = Some r'" and r: "r = (k, x) # r'"
    by (auto split: option.splits)
  from "9.IH"(1)[OF "9.prems"(1) x] "9.IH"(2)[OF x "9.prems"(1) r'] r
  show ?case by simp
next
  case (11 S n h v vs)
  from "11.prems"(2) obtain x r' where x: "read_val S n h v = Some x"
    and r': "read_list S n h vs = Some r'" and r: "xs = x # r'"
    by (auto split: option.splits)
  from "11.IH"(1)[OF "11.prems"(1) x] "11.IH"(2)[OF x "11.prems"(1) r'] r
  show ?case by simp
qed simp_all

lemma read_items_map_of:
  "read_items S n h d = Some r \<Longrightarrow>
     (case map_of d k of
        None \<Rightarrow> map_of r k = None
      | Some v \<Rightarrow> (\<exists>x. read_val S n h v = Some x \<and> map_of r k = Some x))"
proof (induction d arbitrary: r)
  case Nil
  then show ?case by simp
next
  case (Cons kv d)
  obtain k' v' where kv: "kv = (k', v')" by (cases kv)
  from Cons.prems kv obtain x r' where x: "read_val S n h v' = Some x"
    and r': "read_items S n h d = Some r'" and r: "r = (k', x) # r'"
    by (auto split: option.splits)
  from Cons.IH[OF r'] x r kv show ?case by (auto split: option.splits)
qed

lemma read_items_setitem:
  "read_items S n h d = Some r \<Longrightarrow> read_val S n h v = Some x \<Longrightarrow>
     read_items S n h (dict_setitem d k v) = Some (dict_setitem r k x)"
proof (induction d arbitrary: r)
  case Nil
  then show ?case by simp
next
  case (Cons kv d)
  obtain k' v' where kv: "kv = (k', v')" by (cases kv)
  from Cons.prems(1) kv obtain x' r' where x': "read_val S n h v' = Some x'"
    and r': "read_items S n h d = Some r'" and r: "r = (k', x') # r'"
    by (auto split: option.splits)
  from Cons.IH[OF r' Cons.prems(2)] x' r' r kv Cons.prems(2) show ?case by simp
qed

lemma read_val_dict:
  "read_val S n h v = Some (VDict xd) \<Longrightarrow>
     \<exists>a d n'. v = HRef a \<and> n = Suc n' \<and> a \<notin> S \<and> heap_dict h a = Some d \<and>
              read_items S n' h d = Some xd"
  by (cases "(S, n, h, v)" rule: read_val.cases)
     (auto simp: heap_dict_def split: if_splits obj.splits)

lemma read_val_not_dict:
  "read_val S n h v = Some x \<Longrightarrow> as_dict h v = None \<Longrightarrow> (\<forall>xd. x \<noteq> VDict xd)"
  by (cases "(S, n, h, v)" rule: read_val.cases)
     (auto simp: heap_dict_def split: if_splits obj.splits option.splits)

lemma read_val_is_dict:
  "read_val S n h v = Some x \<Longrightarrow> as_dict h v = Some (a, d) \<Longrightarrow> (\<exists>xd. x = VDict xd)"
  by (cases "(S, n, h, v)" rule: read_val.cases)
     (auto simp: heap_dict_def split: if_splits obj.splits option.splits)


lemma heap_setitem_frame:
  "heap_setitem h r k v = Inr h' \<Longrightarrow>
     length h' = length h \<and> (\<forall>a. a \<noteq> r \<longrightarrow> h' ! a = h ! a) \<and> heap_dict h' r \<noteq> None"
  by (auto simp: heap_setitem_def heap_dict_def split: option.splits if_splits obj.splits)

lemma merge_frame_both:
  "(\<forall>h' r. merge_configs_h n h b ov = Inr (h', r) \<longrightarrow>
       r = length h \<and> length h < length h' \<and> (\<forall>a<length h. h' ! a = h ! a) \<and> heap_dict h' r \<noteq> None)"
  "(\<forall>h'. merge_loop_h n h res items = Inr h' \<longrightarrow>
       length h \<le> length h' \<and> (\<forall>a<length h. a \<noteq> res \<longrightarrow> h' ! a = h ! a) \<and>
       (heap_dict h res \<noteq> None \<longrightarrow> heap_dict h' res \<noteq> None))"
proof (induction n h b ov and n h res items rule: merge_configs_h_merge_loop_h.induct)
  case (1 h b ov)
  show ?case by simp
next
  case (2 n h b ov)
  show ?case
  proof (intro allI impI)
    fix h' r
    assume run: "merge_configs_h (Suc n) h b ov = Inr (h', r)"
    obtain bd where bd: "heap_dict h b = Some bd"
      using run by (cases "heap_dict h b") simp_all
    obtain od where od: "heap_dict h ov = Some od"
      using run bd by (cases "heap_dict h ov") simp_all
    obtain hl where loop: "merge_loop_h n (h @ [ODict bd]) (length h) od = Inr hl"
      using run bd od by (cases "merge_loop_h n (h @ [ODict bd]) (length h) od") simp_all
    from run bd od loop have r: "r = length h" and hl: "hl = h'" by simp_all
    note loop = loop[unfolded hl]
    have start: "heap_dict (h @ [ODict bd]) (length h) \<noteq> None"
      by (simp add: heap_dict_def)
    from "2.IH"[OF bd od] loop start
    have len: "length (h @ [ODict bd]) \<le> length h'"
      and same: "\<forall>a<length (h @ [ODict bd]). a \<noteq> length h \<longrightarrow> h' ! a = (h @ [ODict bd]) ! a"
      and dict: "heap_dict h' (length h) \<noteq> None"
      by blast+
    from same have "\<forall>a<length h. h' ! a = h ! a"
      by (auto simp: nth_append)
    with len dict r show "r = length h \<and> length h < length h' \<and> (\<forall>a<length h. h' ! a = h ! a) \<and> heap_dict h' r \<noteq> None"
      by simp
  qed
next
  case (3 n h res)
  show ?case by simp
next
  case (4 n h res key "value" items)
  show ?case
  proof (intro allI impI)
    fix hf
    assume run: "merge_loop_h n h res ((key, value) # items) = Inr hf"
    show "length h \<le> length hf \<and> (\<forall>a<length h. a \<noteq> res \<longrightarrow> hf ! a = h ! a) \<and>
       (heap_dict h res \<noteq> None \<longrightarrow> heap_dict hf res \<noteq> None)"
    proof (cases "merge_test h res key value")
      case None
      obtain h2 where set: "heap_setitem h res key value = Inr h2"
        using run None by (cases "heap_setitem h res key value") simp_all
      from run None set have rest: "merge_loop_h n h2 res items = Inr hf" by simp
      from heap_setitem_frame[OF set] "4.IH"(1)[OF None set] rest
      show ?thesis by auto
    next
      case (Some p)
      obtain ra va where p: "p = (ra, va)" by (cases p)
      obtain h1 m where rec: "merge_configs_h n h ra va = Inr (h1, m)"
        using run Some p by (cases "merge_configs_h n h ra va") auto
      obtain h2 where set: "heap_setitem h1 res key (HRef m) = Inr h2"
        using run Some p rec by (cases "heap_setitem h1 res key (HRef m)") simp_all
      from run Some p rec set have rest: "merge_loop_h n h2 res items = Inr hf" by simp
      from "4.IH"(2)[OF Some[unfolded p] refl] rec
      have f1: "length h < length h1" "\<forall>a<length h. h1 ! a = h ! a" by blast+
      note f2 = heap_setitem_frame[OF set]
      from "4.IH"(3)[OF Some[unfolded p] refl rec refl set] rest
      have f3: "length h2 \<le> length hf" "\<forall>a<length h2. a \<noteq> res \<longrightarrow> hf ! a = h2 ! a"
        "heap_dict h2 res \<noteq> None \<longrightarrow> heap_dict hf res \<noteq> None" by blast+
      from f1 f2 f3 show ?thesis by auto
    qed
  qed
qed

lemma merge_test_None:
  assumes "merge_test h res key value = None"
    and "heap_dict h res = Some rd"
    and "read_items S N h rd = Some resv"
    and "read_val S n h value = Some xv"
  shows "spec_merged_value (map_of resv key) xv = xv"
proof (cases "as_dict h value")
  case None
  from read_val_not_dict[OF assms(4) None] show ?thesis
    by (cases xv) (simp_all add: spec_merged_value_def)
next
  case (Some p)
  note vd = Some
  show ?thesis
  proof (cases "map_of rd key")
    case None
    with read_items_map_of[OF assms(3), of key] have "map_of resv key = None" by simp
    then show ?thesis by (cases xv) (simp_all add: spec_merged_value_def)
  next
    case (Some rv)
    with read_items_map_of[OF assms(3), of key] obtain xr
      where xr: "read_val S N h rv = Some xr" "map_of resv key = Some xr" by auto
    from assms(1,2) vd Some have "as_dict h rv = None"
      by (auto simp: merge_test_def split: option.splits prod.splits)
    from read_val_not_dict[OF xr(1) this] xr(2) show ?thesis
      by (cases xv; cases xr) (simp_all add: spec_merged_value_def)
  qed
qed

lemma merge_test_Some:
  assumes "merge_test h res key value = Some (ra, va)"
    and "heap_dict h res = Some rd"
  shows "value = HRef va \<and> map_of rd key = Some (HRef ra)"
proof -
  from assms obtain vd where v: "as_dict h value = Some (va, vd)"
    by (auto simp: merge_test_def split: option.splits prod.splits)
  then have v': "value = HRef va"
    by (cases "value") (auto split: option.splits)
  from assms v obtain rv rvd where rv: "map_of rd key = Some rv" "as_dict h rv = Some (ra, rvd)"
    by (auto simp: merge_test_def split: option.splits prod.splits)
  from rv(2) have "rv = HRef ra"
    by (cases rv) (auto split: option.splits)
  with v' rv show ?thesis by simp
qed


lemma heap_dict_nth: "heap_dict h a = Some d \<longleftrightarrow> a < length h \<and> h ! a = ODict d"
  by (auto simp: heap_dict_def split: obj.splits)

lemma merge_refines_both:
  "(\<forall>S N bdv odv.
      (\<forall>a\<in>S. a < length h) \<and> read_val S N h (HRef b) = Some (VDict bdv) \<and>
      read_val S n h (HRef ov) = Some (VDict odv) \<longrightarrow>
      (\<exists>h' N'. merge_configs_h n h b ov = Inr (h', length h) \<and>
               read_val S N' h' (HRef (length h)) = Some (VDict (merge_configs bdv odv))))"
  "(\<forall>S N rd resv itsv.
      (\<forall>a\<in>S. a < length h) \<and> res < length h \<and> res \<notin> S \<and> heap_dict h res = Some rd \<and>
      read_items (insert res S) N h rd = Some resv \<and>
      read_items (insert res S) n h items = Some itsv \<longrightarrow>
      (\<exists>h' N' rd'. merge_loop_h n h res items = Inr h' \<and> heap_dict h' res = Some rd' \<and>
               read_items (insert res S) N' h' rd' = Some (merge_configs resv itsv)))"
proof (induction n h b ov and n h res items rule: merge_configs_h_merge_loop_h.induct)
  case (1 h b ov)
  show ?case by simp
next
  case (2 n h b ov)
  show ?case
  proof (intro allI impI, elim conjE)
    fix S N bdv odv
    assume S: "\<forall>a\<in>S. a < length h"
      and rb: "read_val S N h (HRef b) = Some (VDict bdv)"
      and ro: "read_val S (Suc n) h (HRef ov) = Some (VDict odv)"
    from read_val_dict[OF rb] obtain bd N0 where bd: "heap_dict h b = Some bd"
      and rbd: "read_items S N0 h bd = Some bdv" by auto
    from read_val_dict[OF ro] obtain od where od: "heap_dict h ov = Some od"
      and rod: "read_items S n h od = Some odv" by auto
    let ?h1 = "h @ [ODict bd]"
    let ?r = "length h"
    have agree: "\<forall>a. a \<notin> S \<and> a < length h \<longrightarrow>
                   a \<notin> insert ?r S \<and> a < length ?h1 \<and> ?h1 ! a = h ! a"
      by (auto simp: nth_append)
    from read_transfer(2)[OF agree rbd, of 0]
    have b1: "read_items (insert ?r S) N0 ?h1 bd = Some bdv" by simp
    from read_transfer(2)[OF agree rod, of 0]
    have o1: "read_items (insert ?r S) n ?h1 od = Some odv" by simp
    have fresh: "?r \<notin> S" using S by auto
    have pre: "(\<forall>a\<in>S. a < length ?h1) \<and> ?r < length ?h1 \<and> ?r \<notin> S \<and>
               heap_dict ?h1 ?r = Some bd \<and>
               read_items (insert ?r S) N0 ?h1 bd = Some bdv \<and>
               read_items (insert ?r S) n ?h1 od = Some odv"
      using S b1 o1 fresh by (auto simp: heap_dict_nth)
    from "2.IH"[OF bd od] pre obtain h' N' rd'
      where loop: "merge_loop_h n ?h1 ?r od = Inr h'"
        and rd': "heap_dict h' ?r = Some rd'"
        and rr: "read_items (insert ?r S) N' h' rd' = Some (merge_configs bdv odv)"
      by blast
    have "\<forall>a. a \<notin> insert ?r S \<and> a < length h' \<longrightarrow> a \<notin> S \<and> a < length h' \<and> h' ! a = h' ! a"
      by simp
    from read_transfer(2)[OF this rr, of 0]
    have rr': "read_items S N' h' rd' = Some (merge_configs bdv odv)" by simp
    have run: "merge_configs_h (Suc n) h b ov = Inr (h', ?r)"
      using bd od loop by simp
    have "read_val S (Suc N') h' (HRef ?r) = Some (VDict (merge_configs bdv odv))"
      using rd' rr' fresh by (simp add: heap_dict_nth)
    with run
    show "\<exists>h' N'. merge_configs_h (Suc n) h b ov = Inr (h', length h) \<and>
               read_val S N' h' (HRef (length h)) = Some (VDict (merge_configs bdv odv))"
      by blast
  qed
next
  case (3 n h res)
  show ?case by auto
next
  case (4 n h res key "value" items)
  show ?case
  proof (intro allI impI, elim conjE)
    fix S N rd resv itsv
    assume S: "\<forall>a\<in>S. a < length h" and res: "res < length h" "res \<notin> S"
      and rd: "heap_dict h res = Some rd"
      and rres: "read_items (insert res S) N h rd = Some resv"
      and rits: "read_items (insert res S) n h ((key, value) # items) = Some itsv"
    let ?S = "insert res S"
    from rits obtain xv its' where xv: "read_val ?S n h value = Some xv"
      and its': "read_items ?S n h items = Some its'" and itsv: "itsv = (key, xv) # its'"
      by (auto split: option.splits)
    show "\<exists>h' N' rd'. merge_loop_h n h res ((key, value) # items) = Inr h' \<and>
            heap_dict h' res = Some rd' \<and>
            read_items ?S N' h' rd' = Some (merge_configs resv itsv)"
    proof (cases "merge_test h res key value")
      case None
      let ?h2 = "h[res := ODict (dict_setitem rd key value)]"
      have set: "heap_setitem h res key value = Inr ?h2"
        using rd by (simp add: heap_setitem_def)
      have agree: "\<forall>a. a \<notin> ?S \<and> a < length h \<longrightarrow> a \<notin> ?S \<and> a < length ?h2 \<and> ?h2 ! a = h ! a"
        by auto
      from read_transfer(2)[OF agree rres, of n]
      have r1: "read_items ?S (N + n) ?h2 rd = Some resv" .
      from read_transfer(1)[OF agree xv, of N]
      have r2: "read_val ?S (N + n) ?h2 value = Some xv" by (simp add: add.commute)
      from read_items_setitem[OF r1 r2]
      have r3: "read_items ?S (N + n) ?h2 (dict_setitem rd key value)
                  = Some (dict_setitem resv key xv)" .
      from read_transfer(2)[OF agree its', of 0]
      have r4: "read_items ?S n ?h2 items = Some its'" by simp
      have pre: "(\<forall>a\<in>S. a < length ?h2) \<and> res < length ?h2 \<and> res \<notin> S \<and>
                 heap_dict ?h2 res = Some (dict_setitem rd key value) \<and>
                 read_items ?S (N + n) ?h2 (dict_setitem rd key value)
                   = Some (dict_setitem resv key xv) \<and>
                 read_items ?S n ?h2 items = Some its'"
        using S res r3 r4 by (simp add: heap_dict_nth)
      from "4.IH"(1)[OF None set] pre obtain h' N' rd'
        where loop: "merge_loop_h n ?h2 res items = Inr h'"
          and rd': "heap_dict h' res = Some rd'"
          and rr: "read_items ?S N' h' rd' = Some (merge_configs (dict_setitem resv key xv) its')"
        by blast
      have run: "merge_loop_h n h res ((key, value) # items) = Inr h'"
        using None set loop by simp
      have "merge_configs resv itsv = merge_configs (dict_setitem resv key xv) its'"
        unfolding itsv merge_configs_Cons
        by (simp add: merge_test_None[OF None rd rres xv])
      with run rd' rr show ?thesis by auto
    next
      case (Some p)
      obtain ra va where p: "p = (ra, va)" by (cases p)
      note test = Some[unfolded p]
      from merge_test_Some[OF test rd]
      have v: "value = HRef va" and rv: "map_of rd key = Some (HRef ra)" by simp_all
      from test v obtain vd where "as_dict h (HRef va) = Some (va, vd)"
        by (auto simp: merge_test_def split: option.splits prod.splits)
      from read_val_is_dict[OF xv[unfolded v] this] obtain ovv where ovv: "xv = VDict ovv"
        by blast
      from read_items_map_of[OF rres, of key] rv obtain xr
        where xr: "read_val ?S N h (HRef ra) = Some xr" "map_of resv key = Some xr"
        by auto
      from test rd rv obtain rvd where "as_dict h (HRef ra) = Some (ra, rvd)"
        by (auto simp: merge_test_def split: option.splits prod.splits)
      from read_val_is_dict[OF xr(1) this] obtain bvv where bvv: "xr = VDict bvv"
        by blast
      have pre1: "(\<forall>a\<in>?S. a < length h) \<and> read_val ?S N h (HRef ra) = Some (VDict bvv) \<and>
                  read_val ?S n h (HRef va) = Some (VDict ovv)"
        using S res xr(1) bvv xv v ovv by simp
      from "4.IH"(2)[OF test refl] pre1 obtain h1 N1
        where rec: "merge_configs_h n h ra va = Inr (h1, length h)"
          and rm: "read_val ?S N1 h1 (HRef (length h)) = Some (VDict (merge_configs bvv ovv))"
        by blast
      from merge_frame_both(1)[of n h ra va] rec
      have f1: "length h < length h1" "\<forall>a<length h. h1 ! a = h ! a" by blast+
      from f1 rd res have rd1: "heap_dict h1 res = Some rd"
        by (simp add: heap_dict_nth)
      let ?m = "length h"
      let ?h2 = "h1[res := ODict (dict_setitem rd key (HRef ?m))]"
      have set: "heap_setitem h1 res key (HRef ?m) = Inr ?h2"
        using rd1 by (simp add: heap_setitem_def)
      have agree: "\<forall>a. a \<notin> ?S \<and> a < length h \<longrightarrow> a \<notin> ?S \<and> a < length ?h2 \<and> ?h2 ! a = h ! a"
        using f1 by auto
      have agree1: "\<forall>a. a \<notin> ?S \<and> a < length h1 \<longrightarrow> a \<notin> ?S \<and> a < length ?h2 \<and> ?h2 ! a = h1 ! a"
        by auto
      from read_transfer(2)[OF agree rres, of N1]
      have r1: "read_items ?S (N + N1) ?h2 rd = Some resv" .
      from read_transfer(1)[OF agree1 rm, of N]
      have r2: "read_val ?S (N + N1) ?h2 (HRef ?m) = Some (VDict (merge_configs bvv ovv))"
        by (simp add: add.commute)
      from read_items_setitem[OF r1 r2]
      have r3: "read_items ?S (N + N1) ?h2 (dict_setitem rd key (HRef ?m))
                  = Some (dict_setitem resv key (VDict (merge_configs bvv ovv)))" .
      from read_transfer(2)[OF agree its', of 0]
      have r4: "read_items ?S n ?h2 items = Some its'" by simp
      have pre: "(\<forall>a\<in>S. a < length ?h2) \<and> res < length ?h2 \<and> res \<notin> S \<and>
                 heap_dict ?h2 res = Some (dict_setitem rd key (HRef ?m)) \<and>
                 read_items ?S (N + N1) ?h2 (dict_setitem rd key (HRef ?m))
                   = Some (dict_setitem resv key (VDict (merge_configs bvv ovv))) \<and>
                 read_items ?S n ?h2 items = Some its'"
        using S res r3 r4 f1 by (auto simp: heap_dict_nth)
      from "4.IH"(3)[OF test refl rec refl set] pre obtain h' N' rd'
        where loop: "merge_loop_h n ?h2 res items = Inr h'"
          and rd': "heap_dict h' res = Some rd'"
          and rr: "read_items ?S N' h' rd'
                     = Some (merge_configs (dict_setitem resv key (VDict (merge_configs bvv ovv))) its')"
        by blast
      have run: "merge_loop_h n h res ((key, value) # items) = Inr h'"
        using Some p rec set loop by simp
      have "merge_configs resv itsv
              = merge_configs (dict_setitem resv key (VDict (merge_configs bvv ovv))) its'"
        unfolding itsv merge_configs_Cons
        by (simp add: spec_merged_value_def ovv xr(2) bvv)
      with run rd' rr show ?thesis by auto
    qed
  qed
qed

lemma merge_configs_h_frame:
  "merge_configs_h n h b ov = Inr (h', r) \<Longrightarrow>
     r = length h \<and> length h < length h' \<and> take (length h) h' = h"
proof -
  assume run: "merge_configs_h n h b ov = Inr (h', r)"
  from merge_frame_both(1)[of n h b ov] run
  have r: "r = length h" and len: "length h < length h'"
    and same: "\<forall>a<length h. h' ! a = h ! a" by blast+
  from len same have "take (length h) h' = h"
    by (intro nth_equalityI) auto
  with r len show ?thesis by simp
qed

text \<open>
  The call returns on documents: when the base and the override read back as finite
  trees and the recursion limit is at least the depth of the override, the call returns a
  new object, and that object reads back as the merge of the two values. So the function
  on the store computes the function on values.
\<close>

lemma merge_configs_h_returns:
  assumes "read_val {} N h (HRef b) = Some (VDict bd)"
    and "read_val {} n h (HRef ov) = Some (VDict od)"
  shows "\<exists>h' N'. merge_configs_h n h b ov = Inr (h', length h) \<and>
           read_val {} N' h' (HRef (length h)) = Some (VDict (merge_configs bd od))"
  using merge_refines_both(1)[of h b n ov] assms by blast

text \<open>
  Claim C2. merge is non-mutating: when a call returns, every object that was in the
  store before the call, so the base, the override and every mapping nested in them, is
  in the store unchanged, and every value reads back as the same document as before.
  After merging \<open>{a: {x: 1, y: 2}}\<close> with \<open>{a: {y: 9, z: 3}}\<close> the
  base still reads \<open>{a: {x: 1, y: 2}}\<close>.
\<close>

theorem merge_configs_h_non_mutating:
  "merge_configs_h n h base_config override_config = Inr (h', r) \<Longrightarrow>
     take (length h) h' = h \<and>
     (\<forall>N v x. read_val {} N h v = Some x \<longrightarrow> read_val {} N h' v = Some x)"
proof (intro conjI allI impI)
  assume run: "merge_configs_h n h base_config override_config = Inr (h', r)"
  from merge_configs_h_frame[OF run] show t: "take (length h) h' = h" by simp
  fix N v x
  assume rd: "read_val {} N h v = Some x"
  from merge_frame_both(1)[of n h base_config override_config] run
  have "\<forall>a. a \<notin> {} \<and> a < length h \<longrightarrow> a \<notin> {} \<and> a < length h' \<and> h' ! a = h ! a"
    by auto
  from read_transfer(1)[OF this rd, of 0] show "read_val {} N h' v = Some x" by simp
qed

theorem merge_configs_h_non_mutating_witness:
  "merge_configs_h (Suc (Suc 0))
     [ODict [(''a'', HRef 1)], ODict [(''x'', HInt 1), (''y'', HInt 2)],
      ODict [(''a'', HRef 3)], ODict [(''y'', HInt 9), (''z'', HInt 3)]] 0 2
   = Inr ([ODict [(''a'', HRef 1)], ODict [(''x'', HInt 1), (''y'', HInt 2)],
           ODict [(''a'', HRef 3)], ODict [(''y'', HInt 9), (''z'', HInt 3)],
           ODict [(''a'', HRef 5)], ODict [(''x'', HInt 1), (''y'', HInt 9), (''z'', HInt 3)]], 4)
   \<and> take 4 [ODict [(''a'', HRef 1)], ODict [(''x'', HInt 1), (''y'', HInt 2)],
           ODict [(''a'', HRef 3)], ODict [(''y'', HInt 9), (''z'', HInt 3)],
           ODict [(''a'', HRef 5)], ODict [(''x'', HInt 1), (''y'', HInt 9), (''z'', HInt 3)]]
       = [ODict [(''a'', HRef 1)], ODict [(''x'', HInt 1), (''y'', HInt 2)],
          ODict [(''a'', HRef 3)], ODict [(''y'', HInt 9), (''z'', HInt 3)]]
   \<and> read_val {} (Suc (Suc 0))
         [ODict [(''a'', HRef 1)], ODict [(''x'', HInt 1), (''y'', HInt 2)],
           ODict [(''a'', HRef 3)], ODict [(''y'', HInt 9), (''z'', HInt 3)],
           ODict [(''a'', HRef 5)], ODict [(''x'', HInt 1), (''y'', HInt 9), (''z'', HInt 3)]]
         (HRef 0)
       = Some (VDict [(''a'', VDict [(''x'', VInt 1), (''y'', VInt 2)])])"
proof -
  let ?h = "[ODict [(''a'', HRef 1)], ODict [(''x'', HInt 1), (''y'', HInt 2)],
      ODict [(''a'', HRef 3)], ODict [(''y'', HInt 9), (''z'', HInt 3)]]"
  let ?h' = "[ODict [(''a'', HRef 1)], ODict [(''x'', HInt 1), (''y'', HInt 2)],
           ODict [(''a'', HRef 3)], ODict [(''y'', HInt 9), (''z'', HInt 3)],
           ODict [(''a'', HRef 5)], ODict [(''x'', HInt 1), (''y'', HInt 9), (''z'', HInt 3)]]"
  have run: "merge_configs_h (Suc (Suc 0)) ?h 0 2 = Inr (?h', 4)"
    by (simp add: heap_dict_def merge_test_def heap_setitem_def)
  have rd: "read_val {} (Suc (Suc 0)) ?h (HRef 0)
              = Some (VDict [(''a'', VDict [(''x'', VInt 1), (''y'', VInt 2)])])"
    by simp
  from merge_configs_h_non_mutating[OF run] rd
  have "take (length ?h) ?h' = ?h"
    and "read_val {} (Suc (Suc 0)) ?h' (HRef 0)
           = Some (VDict [(''a'', VDict [(''x'', VInt 1), (''y'', VInt 2)])])"
    by blast+
  with run show ?thesis by simp
qed

text \<open>
  The result is a new top-level object, not a deep copy: a mapping of the base that the
  override does not reach is shared. Below, the result at address 3 holds under \<open>a\<close>
  the very reference the base holds.
\<close>

lemma merge_configs_h_shares_untouched:
  "merge_configs_h (Suc 0)
     [ODict [(''a'', HRef 1)], ODict [(''x'', HInt 1)], ODict [(''b'', HInt 2)]] 0 2
   = Inr ([ODict [(''a'', HRef 1)], ODict [(''x'', HInt 1)], ODict [(''b'', HInt 2)],
           ODict [(''a'', HRef 1), (''b'', HInt 2)]], 3)"
  by (simp add: heap_dict_def merge_test_def heap_setitem_def)

subsection \<open>get\_path\_config\<close>

lemma res_bind_simps [simp]:
  "res_bind (Inl e) f = Inl e"
  "res_bind (Inr x) f = f x"
  by (simp_all add: res_bind_def)

lemma map_of_in_keys: "k \<in> fst ` set d \<longleftrightarrow> map_of d k \<noteq> None"
  by (simp add: map_of_eq_None_iff)

lemma path_lookup:
  "res_bind (if truthy file_type then py_in (the file_type) (VDict d) else Inr False)
     (\<lambda>found. if found then py_getitem (VDict d) (the file_type)
               else py_get (VDict d) ''default'' (VStr fallback))
   = Inr (spec_mapping_path d (given_nonempty file_type) fallback)"
proof (cases file_type)
  case None
  then show ?thesis
    by (simp add: spec_mapping_path_def given_nonempty_def dict_get_def)
next
  case (Some f)
  then show ?thesis
    by (cases "map_of d f")
       (auto simp: spec_mapping_path_def given_nonempty_def dict_get_def map_of_in_keys)
qed

text \<open>
  Claim C3, as amended. When \<open>paths.input\<close> is a plain string,
  \<open>get_path_config config input file_type\<close> returns it for every \<open>file_type\<close>,
  none included. When it is a mapping, the result is the entry keyed by \<open>file_type\<close>
  when \<open>file_type\<close> is given, is not the empty string and is present, else the
  entry keyed \<open>default\<close> when present, else the literal \<open>data/input\<close>.
\<close>

theorem get_path_input:
  "map_of config ''paths'' = Some (VDict paths) \<Longrightarrow>
     (\<forall>s. map_of paths ''input'' = Some (VStr s) \<longrightarrow>
          get_path_config config ''input'' file_type = Inr (VStr s)) \<and>
     (\<forall>d. map_of paths ''input'' = Some (VDict d) \<longrightarrow>
          get_path_config config ''input'' file_type
            = Inr (spec_mapping_path d (given_nonempty file_type) ''data/input''))"
  using path_lookup[of file_type _ "''data/input''"]
  by (auto simp: get_path_config_def dict_get_def)

theorem get_path_input_witness:
  "get_path_config [(''paths'', VDict [(''input'', VDict [(''pdf'', VStr ''/a''), (''default'', VStr ''/b'')])])]
      ''input'' (Some ''pdf'') = Inr (VStr ''/a'')
   \<and> get_path_config [(''paths'', VDict [(''input'', VDict [(''pdf'', VStr ''/a''), (''default'', VStr ''/b'')])])]
      ''input'' (Some ''docx'') = Inr (VStr ''/b'')
   \<and> get_path_config [(''paths'', VDict [(''input'', VStr ''/in'')])] ''input'' None = Inr (VStr ''/in'')"
  using get_path_input[of "[(''paths'', VDict [(''input'', VDict [(''pdf'', VStr ''/a''), (''default'', VStr ''/b'')])])]"
            "[(''input'', VDict [(''pdf'', VStr ''/a''), (''default'', VStr ''/b'')])]" "Some ''pdf''"]
        get_path_input[of "[(''paths'', VDict [(''input'', VDict [(''pdf'', VStr ''/a''), (''default'', VStr ''/b'')])])]"
            "[(''input'', VDict [(''pdf'', VStr ''/a''), (''default'', VStr ''/b'')])]" "Some ''docx''"]
        get_path_input[of "[(''paths'', VDict [(''input'', VStr ''/in'')])]" "[(''input'', VStr ''/in'')]" None]
  by (simp add: spec_mapping_path_def given_nonempty_def)

text \<open>
  As the claim is written it fails for the empty string: line 63 tests the truth value of
  \<open>file_type\<close>, so an entry keyed by the empty string is never returned.
\<close>

theorem get_path_input_counterexample:
  "get_path_config [(''paths'', VDict [(''input'', VDict [('''', VStr ''/a''), (''default'', VStr ''/b'')])])]
      ''input'' (Some '''') = Inr (VStr ''/b'')
   \<and> spec_mapping_path [('''', VStr ''/a''), (''default'', VStr ''/b'')] (Some '''') ''data/input''
       = VStr ''/a''
   \<and> get_path_config [(''paths'', VDict [(''input'', VDict [('''', VStr ''/a''), (''default'', VStr ''/b'')])])]
      ''input'' (Some '''')
       \<noteq> Inr (spec_mapping_path [('''', VStr ''/a''), (''default'', VStr ''/b'')] (Some '''') ''data/input'')"
  by (simp add: get_path_config_def dict_get_def spec_mapping_path_def)

text \<open>
  Claim C4, as amended. When \<open>paths\<close> and \<open>paths.output\<close> are mappings,
  \<open>get_path_config config output file_type\<close> returns the entry keyed by
  \<open>file_type\<close> when \<open>file_type\<close> is given, is not the empty string and is
  present, else the entry keyed \<open>default\<close> when present, else the literal
  \<open>data/output\<close>; when \<open>paths\<close> or \<open>paths.output\<close> is absent it
  returns \<open>data/output\<close>.
\<close>

theorem get_path_output:
  "(\<forall>paths d. map_of config ''paths'' = Some (VDict paths) \<and> map_of paths ''output'' = Some (VDict d) \<longrightarrow>
        get_path_config config ''output'' file_type
          = Inr (spec_mapping_path d (given_nonempty file_type) ''data/output'')) \<and>
   (\<forall>paths. map_of config ''paths'' = Some (VDict paths) \<and> map_of paths ''output'' = None \<longrightarrow>
        get_path_config config ''output'' file_type = Inr (VStr ''data/output'')) \<and>
   (map_of config ''paths'' = None \<longrightarrow>
        get_path_config config ''output'' file_type = Inr (VStr ''data/output''))"
  using path_lookup[of file_type _ "''data/output''"]
  by (auto simp: get_path_config_def dict_get_def spec_mapping_path_def given_nonempty_def
           split: option.splits)

theorem get_path_output_witness:
  "get_path_config [(''paths'', VDict [(''output'', VDict [(''pdf'', VStr ''/a''), (''default'', VStr ''/b'')])])]
      ''output'' (Some ''pdf'') = Inr (VStr ''/a'')
   \<and> get_path_config [(''paths'', VDict [(''input'', VStr ''/in'')])] ''output'' (Some ''pdf'')
       = Inr (VStr ''data/output'')
   \<and> get_path_config [] ''output'' None = Inr (VStr ''data/output'')"
  using get_path_output[of "[(''paths'', VDict [(''output'', VDict [(''pdf'', VStr ''/a''), (''default'', VStr ''/b'')])])]" "Some ''pdf''"]
        get_path_output[of "[(''paths'', VDict [(''input'', VStr ''/in'')])]" "Some ''pdf''"]
        get_path_output[of "[]" None]
  by (simp add: spec_mapping_path_def given_nonempty_def)

text \<open>
  As the claim is written it fails twice. A string under \<open>paths.output\<close> is not
  treated as a mapping without entries: the call raises AttributeError. And, as for the
  input, an entry keyed by the empty string is never returned.
\<close>

theorem get_path_output_counterexample:
  "get_path_config [(''paths'', VDict [(''output'', VStr ''out'')])] ''output'' None
     = Inl AttributeError
   \<and> get_path_config [(''paths'', VDict [(''output'', VDict [('''', VStr ''/a''), (''default'', VStr ''/b'')])])]
        ''output'' (Some '''') = Inr (VStr ''/b'')
   \<and> spec_mapping_path [('''', VStr ''/a''), (''default'', VStr ''/b'')] (Some '''') ''data/output''
       = VStr ''/a''
   \<and> get_path_config [(''paths'', VDict [(''output'', VStr ''out'')])] ''output'' None
       \<noteq> Inr (VStr ''data/output'')"
  by (simp add: get_path_config_def dict_get_def spec_mapping_path_def)

subsection \<open>The section getters\<close>

text \<open>
  Claim C5. Each of the five section getters returns what the document stores under its
  key, whatever that is, and the documented literal mapping when the key is absent.
\<close>

theorem section_getters:
  "get_vllm_config config =
     (case map_of config ''vllm'' of
        Some v \<Rightarrow> v
      | None \<Rightarrow> VDict [(''api_base'', VStr ''http://localhost:8000/v1''), (''port'', VInt 8000),
                       (''model'', VStr ''meta-llama/Llama-3.3-70B-Instruct''),
                       (''max_retries'', VInt 3), (''retry_delay'', VFloat 1.0)])
   \<and> get_openai_config config =
     (case map_of config ''api-endpoint'' of
        Some v \<Rightarrow> v
      | None \<Rightarrow> VDict [(''api_base'', VNone), (''api_key'', VNone), (''model'', VStr ''gpt-4o''),
                       (''max_retries'', VInt 3), (''retry_delay'', VFloat 1.0)])
   \<and> get_generation_config config =
     (case map_of config ''generation'' of
        Some v \<Rightarrow> v
      | None \<Rightarrow> VDict [(''temperature'', VFloat 0.7), (''top_p'', VFloat 0.95),
                       (''chunk_size'', VInt 4000), (''overlap'', VInt 200),
                       (''max_tokens'', VInt 4096)])
   \<and> get_curate_config config =
     (case map_of config ''curate'' of
        Some v \<Rightarrow> v
      | None \<Rightarrow> VDict [(''threshold'', VFloat 7.0), (''batch_size'', VInt 8),
                       (''temperature'', VFloat 0.1)])
   \<and> get_format_config config =
     (case map_of config ''format'' of
        Some v \<Rightarrow> v
      | None \<Rightarrow> VDict [(''default'', VStr ''jsonl''), (''include_metadata'', VBool True),
                       (''pretty_json'', VBool True)])"
  by (simp add: get_vllm_config_def get_openai_config_def get_generation_config_def
        get_curate_config_def get_format_config_def dict_get_def vllm_default_def
        openai_default_def generation_default_def curate_default_def format_default_def
           split: option.splits)

theorem section_getters_witness:
  "get_vllm_config [(''vllm'', VDict [(''port'', VInt 9000)])] = VDict [(''port'', VInt 9000)]
   \<and> get_vllm_config [(''curate'', VDict [])] =
       VDict [(''api_base'', VStr ''http://localhost:8000/v1''), (''port'', VInt 8000),
              (''model'', VStr ''meta-llama/Llama-3.3-70B-Instruct''),
              (''max_retries'', VInt 3), (''retry_delay'', VFloat 1.0)]
   \<and> get_curate_config [(''curate'', VDict [])] = VDict []"
  using section_getters[of "[(''vllm'', VDict [(''port'', VInt 9000)])]"]
        section_getters[of "[(''curate'', VDict [])]"]
  by simp

subsection \<open>get\_prompt\<close>

text \<open>
  Claim C6, as amended. For every document whose \<open>prompts\<close> section is absent or a
  mapping, \<open>get_prompt\<close> fails with the not-found error (the ValueError of line 141)
  exactly when the entry \<open>prompts.<name>\<close> is absent, and otherwise returns the
  stored prompt.
\<close>

theorem get_prompt_not_found:
  "map_of config ''prompts'' = None \<or> (\<exists>prompts. map_of config ''prompts'' = Some (VDict prompts)) \<Longrightarrow>
     get_prompt config prompt_name =
       (case spec_prompt_entry config prompt_name of
          None \<Rightarrow> Inl (ValueError (prompt_not_found prompt_name))
        | Some v \<Rightarrow> Inr v)"
  by (auto simp: get_prompt_def spec_prompt_entry_def dict_get_def map_of_in_keys
           split: option.splits)

theorem get_prompt_not_found_witness:
  "get_prompt [(''prompts'', VDict [(''summary'', VStr ''Summarize'')])] ''missing''
     = Inl (ValueError (prompt_not_found ''missing''))
   \<and> get_prompt [(''prompts'', VDict [(''summary'', VStr ''Summarize'')])] ''summary''
     = Inr (VStr ''Summarize'')
   \<and> get_prompt [] ''missing'' = Inl (ValueError (prompt_not_found ''missing''))"
  using get_prompt_not_found[of "[(''prompts'', VDict [(''summary'', VStr ''Summarize'')])]" "''missing''"]
        get_prompt_not_found[of "[(''prompts'', VDict [(''summary'', VStr ''Summarize'')])]" "''summary''"]
        get_prompt_not_found[of "[]" "''missing''"]
  by (simp add: spec_prompt_entry_def)

text \<open>
  As the claim is written it fails when the \<open>prompts\<close> key holds no mapping: with
  \<open>prompts\<close> set to null the entry is absent and the call raises TypeError.
\<close>

theorem get_prompt_counterexample:
  "spec_prompt_entry [(''prompts'', VNone)] ''missing'' = None
   \<and> get_prompt [(''prompts'', VNone)] ''missing'' = Inl TypeError
   \<and> get_prompt [(''prompts'', VNone)] ''missing'' \<noteq> Inl (ValueError (prompt_not_found ''missing''))"
  by (simp add: spec_prompt_entry_def get_prompt_def dict_get_def)

subsection \<open>get\_llm\_provider\<close>

text \<open>
  Whatever provider lines 84 and 85 read, the condition of line 87 is false for it.
\<close>

lemma warning_condition_False:
  "read_provider config = Inr provider \<Longrightarrow> warning_condition config provider = Inr False"
proof (cases "map_of config ''llm''")
  case None
  then show ?thesis
    by (simp add: warning_condition_def map_of_in_keys)
next
  case (Some llm)
  assume rp: "read_provider config = Inr provider"
  with Some obtain d where d: "llm = VDict d"
    by (cases llm) (simp_all add: read_provider_def dict_get_def)
  from rp Some d have p: "provider = dict_get d ''provider'' (VStr ''vllm'')"
    by (simp add: read_provider_def dict_get_def)
  show ?thesis
  proof (cases "map_of d ''provider''")
    case None
    with Some d show ?thesis
      by (simp add: warning_condition_def map_of_in_keys)
  next
    case (Some v)
    with p have "provider = v" by (simp add: dict_get_def)
    with Some \<open>map_of config ''llm'' = Some llm\<close> d show ?thesis
      by (simp add: warning_condition_def map_of_in_keys)
  qed
qed

text \<open>
  Claim C7. The consistency check of \<open>get_llm_provider\<close> is dead: for every
  document, the condition of the warning evaluates to false for the provider that was
  read, and no warning is ever printed.
\<close>

theorem warning_is_dead:
  "(\<forall>provider. read_provider config = Inr provider \<longrightarrow>
        warning_condition config provider = Inr False)
   \<and> (\<forall>provider. ProviderWarning provider \<notin> set (fst (get_llm_provider config)))"
proof (intro conjI allI impI)
  fix provider
  assume "read_provider config = Inr provider"
  then show "warning_condition config provider = Inr False"
    by (rule warning_condition_False)
next
  fix provider
  show "ProviderWarning provider \<notin> set (fst (get_llm_provider config))"
  proof (cases "read_provider config")
    case (Inl e)
    then show ?thesis by (simp add: get_llm_provider_def)
  next
    case (Inr p)
    with warning_condition_False[OF Inr] show ?thesis
      by (simp add: get_llm_provider_def)
  qed
qed

theorem warning_is_dead_witness:
  "read_provider [(''llm'', VDict [(''provider'', VStr ''api-endpoint'')])] = Inr (VStr ''api-endpoint'')
   \<and> warning_condition [(''llm'', VDict [(''provider'', VStr ''api-endpoint'')])] (VStr ''api-endpoint'')
       = Inr False
   \<and> get_llm_provider [(''llm'', VDict [(''provider'', VStr ''api-endpoint'')])]
       = ([ProviderReturning (VStr ''api-endpoint'')], Inr (VStr ''api-endpoint''))"
proof -
  have rp: "read_provider [(''llm'', VDict [(''provider'', VStr ''api-endpoint'')])]
              = Inr (VStr ''api-endpoint'')"
    by (simp add: read_provider_def dict_get_def)
  from warning_is_dead[of "[(''llm'', VDict [(''provider'', VStr ''api-endpoint'')])]"] rp
  have wc: "warning_condition [(''llm'', VDict [(''provider'', VStr ''api-endpoint'')])]
              (VStr ''api-endpoint'') = Inr False"
    by blast
  from rp wc show ?thesis by (simp add: get_llm_provider_def)
qed

text \<open>
  Claim C10, as amended. For every document whose \<open>llm\<close> entry is absent or a
  mapping, \<open>get_llm_provider\<close> returns the value stored at \<open>llm.provider\<close>
  when the key is present and the string \<open>vllm\<close> when the section or the key is
  absent.
\<close>

theorem get_llm_provider_value:
  "(map_of config ''llm'' = None \<longrightarrow> snd (get_llm_provider config) = Inr (VStr ''vllm''))
   \<and> (\<forall>llm. map_of config ''llm'' = Some (VDict llm) \<longrightarrow>
         snd (get_llm_provider config)
           = Inr (case map_of llm ''provider'' of Some v \<Rightarrow> v | None \<Rightarrow> VStr ''vllm''))"
proof (intro conjI allI impI)
  assume "map_of config ''llm'' = None"
  then have rp: "read_provider config = Inr (VStr ''vllm'')"
    by (simp add: read_provider_def dict_get_def)
  with warning_condition_False[OF rp] show "snd (get_llm_provider config) = Inr (VStr ''vllm'')"
    by (simp add: get_llm_provider_def)
next
  fix llm
  assume "map_of config ''llm'' = Some (VDict llm)"
  then have rp: "read_provider config
                   = Inr (case map_of llm ''provider'' of Some v \<Rightarrow> v | None \<Rightarrow> VStr ''vllm'')"
    by (simp add: read_provider_def dict_get_def)
  with warning_condition_False[OF rp]
  show "snd (get_llm_provider config)
          = Inr (case map_of llm ''provider'' of Some v \<Rightarrow> v | None \<Rightarrow> VStr ''vllm'')"
    by (simp add: get_llm_provider_def)
qed

theorem get_llm_provider_value_witness:
  "snd (get_llm_provider []) = Inr (VStr ''vllm'')
   \<and> snd (get_llm_provider [(''llm'', VDict [(''provider'', VStr ''api-endpoint'')])])
       = Inr (VStr ''api-endpoint'')
   \<and> snd (get_llm_provider [(''llm'', VDict [])]) = Inr (VStr ''vllm'')"
  using get_llm_provider_value[of "[]"]
        get_llm_provider_value[of "[(''llm'', VDict [(''provider'', VStr ''api-endpoint'')])]"]
        get_llm_provider_value[of "[(''llm'', VDict [])]"]
  by simp

text \<open>
  As the claim is written it fails when the \<open>llm\<close> key holds no mapping: with
  \<open>llm\<close> set to null the provider key is absent and the call raises AttributeError.
\<close>

theorem get_llm_provider_counterexample:
  "map_of [(''llm'', VNone)] ''llm'' = Some VNone
   \<and> get_llm_provider [(''llm'', VNone)] = ([], Inl AttributeError)
   \<and> snd (get_llm_provider [(''llm'', VNone)]) \<noteq> Inr (VStr ''vllm'')"
  by (simp add: get_llm_provider_def read_provider_def dict_get_def)

subsection \<open>Unknown path types\<close>

text \<open>
  Claim C9. For every document and every \<open>path_type\<close> other than \<open>input\<close>
  and \<open>output\<close>, \<open>get_path_config\<close> fails with the invalid-argument error
  (the ValueError of line 76), and it raises a ValueError in no other case.
\<close>

theorem get_path_invalid_argument:
  "(path_type \<noteq> ''input'' \<and> path_type \<noteq> ''output'' \<longrightarrow>
      get_path_config config path_type file_type = Inl (ValueError (unknown_path_type path_type)))
   \<and> (\<forall>msg. get_path_config config path_type file_type = Inl (ValueError msg) \<longrightarrow>
         path_type \<noteq> ''input'' \<and> path_type \<noteq> ''output'')"
proof (intro conjI allI impI)
  assume "path_type \<noteq> ''input'' \<and> path_type \<noteq> ''output''"
  then show "get_path_config config path_type file_type
               = Inl (ValueError (unknown_path_type path_type))"
    by (simp add: get_path_config_def)
next
  fix msg
  assume err: "get_path_config config path_type file_type = Inl (ValueError msg)"
  have no_value_error:
    "res_bind (if truthy file_type then py_in (the file_type) v else Inr False)
       (\<lambda>found. if found then py_getitem v (the file_type) else py_get v ''default'' dflt)
     \<noteq> Inl (ValueError msg)" for v dflt
    by (cases v) (auto simp: res_bind_def split: option.splits sum.splits)
  have get_no_value_error: "py_get v k dflt \<noteq> Inl (ValueError msg)" for v k dflt
    by (cases v) simp_all
  show "path_type \<noteq> ''input''"
  proof
    assume pt: "path_type = ''input''"
    show False
    proof (cases "py_get (dict_get config ''paths'' (VDict [])) ''input'' (VStr ''data/input'')")
      case (Inl e)
      with err pt get_no_value_error show ?thesis
        by (auto simp: get_path_config_def)
    next
      case (Inr input_config)
      with err pt no_value_error[of input_config "VStr ''data/input''"] show ?thesis
        by (cases input_config) (auto simp: get_path_config_def)
    qed
  qed
  show "path_type \<noteq> ''output''"
  proof
    assume pt: "path_type = ''output''"
    show False
    proof (cases "py_get (dict_get config ''paths'' (VDict [])) ''output'' (VDict [])")
      case (Inl e)
      with err pt get_no_value_error show ?thesis
        by (auto simp: get_path_config_def)
    next
      case (Inr output_paths)
      with err pt no_value_error[of output_paths "VStr ''data/output''"] show ?thesis
        by (auto simp: get_path_config_def)
    qed
  qed
qed

theorem get_path_invalid_argument_witness:
  "get_path_config [] ''bogus'' None = Inl (ValueError ''Unknown path type: bogus'')
   \<and> ''bogus'' \<noteq> ''input'' \<and> ''bogus'' \<noteq> ''output''"
  using get_path_invalid_argument[of "''bogus''" "[]" None]
  by (simp add: unknown_path_type_def)

subsection \<open>load\_config\<close>

lemma resolve_path_None:
  "resolve_path E None =
     (if path_exists E (PACKAGE_CONFIG_PATH E) then PACKAGE_CONFIG_PATH E
      else if path_exists E (ORIGINAL_CONFIG_PATH E) then ORIGINAL_CONFIG_PATH E
      else PACKAGE_CONFIG_PATH E)"
  by (simp add: resolve_path_def DEFAULT_CONFIG_PATH_def)

lemma debug_provider_error: "debug_provider config = Inl e \<Longrightarrow> e = TypeError"
proof (cases config)
  case (VDict d)
  assume err: "debug_provider config = Inl e"
  show ?thesis
  proof (cases "map_of d ''llm''")
    case None
    with err VDict show ?thesis
      by (simp add: debug_provider_def map_of_in_keys)
  next
    case (Some llm)
    with err VDict show ?thesis
      by (cases llm)
         (auto simp: debug_provider_def map_of_in_keys split: if_splits option.splits)
  qed
qed (auto simp: debug_provider_def split: if_splits)

lemma debug_provider_mapping:
  "map_of d ''llm'' = None \<or> (\<exists>llm. map_of d ''llm'' = Some (VDict llm)) \<Longrightarrow>
     \<exists>m. debug_provider (VDict d) = Inr m"
  by (auto simp: debug_provider_def map_of_in_keys split: option.splits)

text \<open>
  What the loader does on every file system. An explicit path is used as it is; without
  one the loader takes the package-relative path if it exists, else the legacy path if it
  exists, else the package-relative path again. It fails with the not-found error
  (FileNotFoundError) exactly when the path it settled on does not exist. Otherwise a
  failure to read the file escapes as it is, and a parsed document is returned whenever
  the debug print of lines 46 to 49 does not raise; when that print raises, the loader
  raises TypeError.
\<close>

lemma load_config_resolution:
  "resolve_path E (Some p) = p
   \<and> resolve_path E None =
       (if path_exists E (PACKAGE_CONFIG_PATH E) then PACKAGE_CONFIG_PATH E
        else if path_exists E (ORIGINAL_CONFIG_PATH E) then ORIGINAL_CONFIG_PATH E
        else PACKAGE_CONFIG_PATH E)
   \<and> ((\<exists>msg. snd (load_config E config_path) = Inl (FileNotFoundError msg))
        \<longleftrightarrow> \<not> path_exists E (resolve_path E config_path))
   \<and> (\<not> path_exists E (resolve_path E config_path) \<longrightarrow>
        snd (load_config E config_path)
          = Inl (FileNotFoundError (not_found_message (resolve_path E config_path))))
   \<and> (path_exists E (resolve_path E config_path) \<longrightarrow>
        (read_yaml E (resolve_path E config_path) = Inl CannotOpen \<longrightarrow>
           snd (load_config E config_path) = Inl OSError)
        \<and> (read_yaml E (resolve_path E config_path) = Inl CannotDecode \<longrightarrow>
           snd (load_config E config_path) = Inl UnicodeDecodeError)
        \<and> (read_yaml E (resolve_path E config_path) = Inl Malformed \<longrightarrow>
           snd (load_config E config_path) = Inl YAMLError)
        \<and> (\<forall>config m. read_yaml E (resolve_path E config_path) = Inr config
              \<and> debug_provider config = Inr m \<longrightarrow>
              snd (load_config E config_path) = Inr config)
        \<and> (\<forall>config e. read_yaml E (resolve_path E config_path) = Inr config
              \<and> debug_provider config = Inl e \<longrightarrow>
              snd (load_config E config_path) = Inl TypeError))"
proof (intro conjI allI impI)
  show "resolve_path E (Some p) = p"
    by (simp add: resolve_path_def)
next
  show "resolve_path E None =
       (if path_exists E (PACKAGE_CONFIG_PATH E) then PACKAGE_CONFIG_PATH E
        else if path_exists E (ORIGINAL_CONFIG_PATH E) then ORIGINAL_CONFIG_PATH E
        else PACKAGE_CONFIG_PATH E)"
    by (rule resolve_path_None)
next
  show "(\<exists>msg. snd (load_config E config_path) = Inl (FileNotFoundError msg))
        \<longleftrightarrow> \<not> path_exists E (resolve_path E config_path)"
  proof
    assume "\<exists>msg. snd (load_config E config_path) = Inl (FileNotFoundError msg)"
    then obtain msg where err: "snd (load_config E config_path) = Inl (FileNotFoundError msg)"
      by blast
    show "\<not> path_exists E (resolve_path E config_path)"
    proof
      assume ex: "path_exists E (resolve_path E config_path)"
      show False
      proof (cases "read_yaml E (resolve_path E config_path)")
        case (Inl f)
        with err ex show ?thesis
          by (cases f) (simp_all add: load_config_def)
      next
        case (Inr config)
        show ?thesis
        proof (cases "debug_provider config")
          case (Inl e)
          from debug_provider_error[OF Inl] Inl err ex Inr show ?thesis
            by (simp add: load_config_def)
        next
          case (Inr m)
          with err ex \<open>read_yaml E (resolve_path E config_path) = Inr config\<close> show ?thesis
            by (simp add: load_config_def)
        qed
      qed
    qed
  next
    assume "\<not> path_exists E (resolve_path E config_path)"
    then show "\<exists>msg. snd (load_config E config_path) = Inl (FileNotFoundError msg)"
      by (simp add: load_config_def)
  qed
next
  assume "\<not> path_exists E (resolve_path E config_path)"
  then show "snd (load_config E config_path)
          = Inl (FileNotFoundError (not_found_message (resolve_path E config_path)))"
    by (simp add: load_config_def)
next
  assume "path_exists E (resolve_path E config_path)"
    and "read_yaml E (resolve_path E config_path) = Inl CannotOpen"
  then show "snd (load_config E config_path) = Inl OSError"
    by (simp add: load_config_def)
next
  assume "path_exists E (resolve_path E config_path)"
    and "read_yaml E (resolve_path E config_path) = Inl CannotDecode"
  then show "snd (load_config E config_path) = Inl UnicodeDecodeError"
    by (simp add: load_config_def)
next
  assume "path_exists E (resolve_path E config_path)"
    and "read_yaml E (resolve_path E config_path) = Inl Malformed"
  then show "snd (load_config E config_path) = Inl YAMLError"
    by (simp add: load_config_def)
next
  fix config m
  assume "path_exists E (resolve_path E config_path)"
    and "read_yaml E (resolve_path E config_path) = Inr config \<and> debug_provider config = Inr m"
  then show "snd (load_config E config_path) = Inr config"
    by (simp add: load_config_def)
next
  fix config e
  assume ex: "path_exists E (resolve_path E config_path)"
    and rd: "read_yaml E (resolve_path E config_path) = Inr config \<and> debug_provider config = Inl e"
  then have "e = TypeError"
    using debug_provider_error[of config e] by blast
  with ex rd show "snd (load_config E config_path) = Inl TypeError"
    by (simp add: load_config_def)
qed

text \<open>
  The loader at work: only the legacy path exists and it is the one loaded; nothing exists
  and the package-relative path is the one reported missing. Documents on which the debug
  print does not raise are returned whatever their shape: a mapping without an
  \<open>llm\<close> key, one whose \<open>llm\<close> entry is a string that does not contain
  \<open>provider\<close>, a top-level list.
\<close>

lemma load_config_examples:
  "resolve_path (file_env [''pkg/configs/config.yaml''] (VDict [(''llm'', VDict [])])) None
     = ''pkg/configs/config.yaml''
   \<and> load_config (file_env [''pkg/configs/config.yaml''] (VDict [(''llm'', VDict [])])) None
     = ([LoadingConfigFrom ''pkg/configs/config.yaml'', ConfigNoProvider],
        Inr (VDict [(''llm'', VDict [])]))
   \<and> load_config (file_env [''pkg/configs/config.yaml'']
         (VDict [(''llm'', VDict [(''provider'', VStr ''vllm'')])])) None
     = ([LoadingConfigFrom ''pkg/configs/config.yaml'', ConfigHasProvider (VStr ''vllm'')],
        Inr (VDict [(''llm'', VDict [(''provider'', VStr ''vllm'')])]))
   \<and> resolve_path (file_env [] VNone) None = ''pkg/synthetic_data_kit/config.yaml''
   \<and> snd (load_config (file_env [] VNone) None)
     = Inl (FileNotFoundError ''Configuration file not found at pkg/synthetic_data_kit/config.yaml'')
   \<and> snd (load_config (file_env [''pkg/configs/config.yaml''] (VDict [(''llm'', VStr ''openai'')])) None)
     = Inr (VDict [(''llm'', VStr ''openai'')])
   \<and> snd (load_config (file_env [''pkg/configs/config.yaml''] (VList [VStr ''a''])) None)
     = Inr (VList [VStr ''a''])"
  by (simp add: file_env_def load_config_def resolve_path_def DEFAULT_CONFIG_PATH_def
        debug_provider_def not_found_message_def)

text \<open>
  Claim C8. The claim has the loader return the parsed document whenever the path it
  settled on exists. The code does not on two files that exist and parse. An empty file
  parses to None and a file holding only \<open>llm:\<close> parses to a mapping whose
  \<open>llm\<close> entry is None; on both, the membership test of the debug print at line
  46 raises TypeError, and the \<^verbatim>\<open>return config\<close> of line 51 is never reached.
  The print has an else branch for a configuration without a provider, which is where
  these two documents belong.
\<close>

theorem load_config_debug_print_raises:
  "path_exists (file_env [''pkg/configs/config.yaml''] VNone)
     (resolve_path (file_env [''pkg/configs/config.yaml''] VNone) None)
   \<and> read_yaml (file_env [''pkg/configs/config.yaml''] VNone)
       (resolve_path (file_env [''pkg/configs/config.yaml''] VNone) None) = Inr VNone
   \<and> load_config (file_env [''pkg/configs/config.yaml''] VNone) None
       = ([LoadingConfigFrom ''pkg/configs/config.yaml''], Inl TypeError)
   \<and> path_exists (file_env [''pkg/configs/config.yaml''] (VDict [(''llm'', VNone)]))
       (resolve_path (file_env [''pkg/configs/config.yaml''] (VDict [(''llm'', VNone)])) None)
   \<and> read_yaml (file_env [''pkg/configs/config.yaml''] (VDict [(''llm'', VNone)]))
       (resolve_path (file_env [''pkg/configs/config.yaml''] (VDict [(''llm'', VNone)])) None)
       = Inr (VDict [(''llm'', VNone)])
   \<and> load_config (file_env [''pkg/configs/config.yaml''] (VDict [(''llm'', VNone)])) None
       = ([LoadingConfigFrom ''pkg/configs/config.yaml''], Inl TypeError)"
  by (simp add: file_env_def load_config_def resolve_path_def debug_provider_def)

end
